theory Spec2Isabelle
  imports Complex_Main
begin

section \<open>JavaScript values used by the analysis routines\<close>

text \<open>
  The page analysis of \<^verbatim>\<open>server/routes.ts\<close> works on JavaScript numbers and strings.
  Numbers are modelled as exact rationals: every number the routines build is a count, a
  decimal constant, or a sum, product or quotient of those. Strings are lists of
  characters, one \<^typ>\<open>char\<close> per code unit, restricted to the code units below 256.
\<close>

type_synonym number = rat

definition Math_round :: "number \<Rightarrow> number" where
  \<comment> \<open>\<^verbatim>\<open>Math.round\<close>: the nearest integer, a tie going up.\<close>
  "Math_round x = of_int \<lfloor>x + 1 / 2\<rfloor>"

definition toFixed1 :: "number \<Rightarrow> number" where
  \<comment> \<open>\<^verbatim>\<open>parseFloat(x.toFixed(1))\<close>: the nearest multiple of one tenth, a tie going up.\<close>
  "toFixed1 x = of_int \<lfloor>x * 10 + 1 / 2\<rfloor> / 10"

definition startsWith :: "string \<Rightarrow> string \<Rightarrow> bool" where
  "startsWith s p = (take (length p) s = p)"

fun includesStr :: "string \<Rightarrow> string \<Rightarrow> bool" where
  "includesStr [] p = (p = [])"
| "includesStr (c # cs) p = (startsWith (c # cs) p \<or> includesStr cs p)"

definition isWhiteSpace :: "char \<Rightarrow> bool" where
  \<comment> \<open>The class \<^verbatim>\<open>\s\<close> below code unit 256: tab, line feed, vertical tab, form feed,
      carriage return, space and no-break space.\<close>
  "isWhiteSpace c = ((of_char c :: nat) \<in> {9, 10, 11, 12, 13, 32, 160})"

definition isSentenceEnd :: "char \<Rightarrow> bool" where
  \<comment> \<open>The class \<^verbatim>\<open>[.!?]\<close>.\<close>
  "isSentenceEnd c = (c = CHR ''.'' \<or> c = CHR ''!'' \<or> c = CHR ''?'')"

definition lowerChar :: "char \<Rightarrow> char" where
  \<comment> \<open>A to Z, and the capital letters of the range 192 to 222 other than the
      multiplication sign 215, move up by 32.\<close>
  "lowerChar c =
     (let n = (of_char c :: nat)
      in if (65 \<le> n \<and> n \<le> 90) \<or> (192 \<le> n \<and> n \<le> 222 \<and> n \<noteq> 215)
         then char_of (n + 32) else c)"

definition toLowerCase :: "string \<Rightarrow> string" where
  "toLowerCase s = map lowerChar s"

definition trim :: "string \<Rightarrow> string" where
  "trim s = rev (dropWhile isWhiteSpace (rev (dropWhile isWhiteSpace s)))"

function replaceRuns :: "(char \<Rightarrow> bool) \<Rightarrow> string \<Rightarrow> string \<Rightarrow> string" where
  \<comment> \<open>\<^verbatim>\<open>s.replace(/C+/g, r)\<close> for a character class \<open>C\<close>: every maximal run of
      characters of the class becomes \<open>r\<close>.\<close>
  "replaceRuns C r [] = []"
| "replaceRuns C r (c # cs) =
     (if C c then r @ replaceRuns C r (dropWhile C cs) else c # replaceRuns C r cs)"
  by pat_completeness auto
termination
  by (relation "measure (\<lambda>(C, r, s). length s)")
     (auto simp: length_dropWhile_le less_Suc_eq_le)

function splitRuns :: "(char \<Rightarrow> bool) \<Rightarrow> string \<Rightarrow> string \<Rightarrow> string list" where
  \<comment> \<open>\<^verbatim>\<open>s.split(/C+/)\<close> for a character class \<open>C\<close>, scanning with the piece read so
      far in \<open>cur\<close>: a maximal run of the class ends the piece, and the end of the
      string ends the last piece, which may be empty.\<close>
  "splitRuns C cur [] = [cur]"
| "splitRuns C cur (c # cs) =
     (if C c then cur # splitRuns C [] (dropWhile C cs) else splitRuns C (cur @ [c]) cs)"
  by pat_completeness auto
termination
  by (relation "measure (\<lambda>(C, cur, s). length s)")
     (auto simp: length_dropWhile_le less_Suc_eq_le)

definition str_split :: "(char \<Rightarrow> bool) \<Rightarrow> string \<Rightarrow> string list" where
  "str_split C s = splitRuns C [] s"


section \<open>The parsed document\<close>

text \<open>
  Every extractor starts with \<^verbatim>\<open>cheerio.load(html)\<close> and queries the result by tag
  name and attribute. The parsed document is a tree of text nodes and elements; an
  element has a (lower-case) tag name, its attributes in source order and its children.
\<close>

datatype node = Text string | Element string "(string \<times> string) list" "node list"

type_synonym document = node

fun tagName :: "node \<Rightarrow> string" where
  "tagName (Text s) = []"
| "tagName (Element t as cs) = t"

fun isElement :: "node \<Rightarrow> bool" where
  "isElement (Text s) = False"
| "isElement (Element t as cs) = True"

fun attr :: "node \<Rightarrow> string \<Rightarrow> string option" where
  \<comment> \<open>\<^verbatim>\<open>$(el).attr(name)\<close>; \<open>None\<close> is \<^verbatim>\<open>undefined\<close>.\<close>
  "attr (Text s) k = None"
| "attr (Element t as cs) k = map_of as k"

fun text_of :: "node \<Rightarrow> string" where
  \<comment> \<open>\<^verbatim>\<open>$(el).text()\<close>: the text of the element and of all its descendants.\<close>
  "text_of (Text s) = s"
| "text_of (Element t as cs) = concat (map text_of cs)"

fun elements :: "node \<Rightarrow> node list" where
  \<comment> \<open>All elements of a tree, in document order.\<close>
  "elements (Text s) = []"
| "elements (Element t as cs) = Element t as cs # concat (map elements cs)"

definition select :: "document \<Rightarrow> string \<Rightarrow> node list" where
  \<comment> \<open>\<^verbatim>\<open>$('tag')\<close>\<close>
  "select doc t = filter (\<lambda>e. tagName e = t) (elements doc)"

definition selectAttr :: "document \<Rightarrow> string \<Rightarrow> string \<Rightarrow> string \<Rightarrow> node list" where
  \<comment> \<open>\<^verbatim>\<open>$('tag[name="value"]')\<close>\<close>
  "selectAttr doc t k v = filter (\<lambda>e. tagName e = t \<and> attr e k = Some v) (elements doc)"

definition firstAttr :: "node list \<Rightarrow> string \<Rightarrow> string option" where
  \<comment> \<open>\<^verbatim>\<open>.attr(name)\<close> of a selection: the attribute of its first element.\<close>
  "firstAttr sel k = (case sel of [] \<Rightarrow> None | e # _ \<Rightarrow> attr e k)"

definition texts :: "node list \<Rightarrow> string" where
  \<comment> \<open>\<^verbatim>\<open>.text()\<close> of a selection: the texts of its elements, joined.\<close>
  "texts sel = concat (map text_of sel)"

definition orEmpty :: "string option \<Rightarrow> string" where
  \<comment> \<open>\<^verbatim>\<open>x || ''\<close>\<close>
  "orEmpty x = (case x of None \<Rightarrow> [] | Some s \<Rightarrow> s)"


section \<open>Headings\<close>

datatype quality = good | needs_improvement | poor

record heading =
  h_text :: string
  h_count :: nat

record headings =
  h1 :: "heading list"
  h2 :: "heading list"
  h3 :: "heading list"
  h4 :: "heading list"
  h5 :: "heading list"
  h6 :: "heading list"

record heading_analysis =
  h1Count :: nat
  hasProperH1 :: bool
  hasLogicalStructure :: bool
  ha_status :: quality

record heading_facts =
  hf_headings :: headings
  hf_analysis :: heading_analysis

definition checkLogicalHeadingStructure :: "headings \<Rightarrow> bool" where
  "checkLogicalHeadingStructure hs =
     (if length (h1 hs) \<noteq> 1 then False
      else if length (h2 hs) = 0 \<and> (length (h3 hs) > 0 \<or> length (h4 hs) > 0) then False
      else if length (h3 hs) > 0 \<and> length (h2 hs) = 0 then False
      else True)"

definition calculateHeadingStatus :: "nat \<Rightarrow> bool \<Rightarrow> quality" where
  "calculateHeadingStatus n logical =
     (if n = 1 \<and> logical then good
      else if n = 1 \<or> logical then needs_improvement
      else poor)"

definition headingsOf :: "document \<Rightarrow> string \<Rightarrow> heading list" where
  \<comment> \<open>The loop body of \<^verbatim>\<open>extractHeadings\<close> for one tag.\<close>
  "headingsOf doc t = map (\<lambda>el. \<lparr>h_text = trim (text_of el), h_count = 1\<rparr>) (select doc t)"

definition extractHeadings :: "document \<Rightarrow> heading_facts" where
  "extractHeadings doc =
     (let hs = \<lparr>h1 = headingsOf doc ''h1'', h2 = headingsOf doc ''h2'',
                h3 = headingsOf doc ''h3'', h4 = headingsOf doc ''h4'',
                h5 = headingsOf doc ''h5'', h6 = headingsOf doc ''h6''\<rparr>;
          n = length (h1 hs);
          logical = checkLogicalHeadingStructure hs
      in \<lparr>hf_headings = hs,
          hf_analysis = \<lparr>h1Count = n, hasProperH1 = (n = 1), hasLogicalStructure = logical,
                         ha_status = calculateHeadingStatus n logical\<rparr>\<rparr>)"


section \<open>Meta tags\<close>

datatype length_status = missing_len | too_short | good_len | too_long

datatype presence = present | missing

record sized_tag =
  st_content :: string
  st_status :: length_status
  st_length :: nat

record plain_tag =
  pt_content :: string
  pt_status :: presence

record basic_tags =
  b_title :: sized_tag
  b_description :: sized_tag
  b_canonical :: plain_tag
  b_viewport :: plain_tag
  b_robots :: plain_tag

record og_tags =
  og_title :: plain_tag
  og_description :: plain_tag
  og_url :: plain_tag
  og_image :: plain_tag
  og_type :: plain_tag

record twitter_tags =
  tw_card :: plain_tag
  tw_title :: plain_tag
  tw_description :: plain_tag
  tw_image :: plain_tag

record meta_tags =
  mt_basic :: basic_tags
  mt_openGraph :: og_tags
  mt_twitter :: twitter_tags
  mt_score :: number

definition calculateMetaTagsScore ::
  "string \<Rightarrow> string \<Rightarrow> string \<Rightarrow> string \<Rightarrow> string \<Rightarrow> string \<Rightarrow> string \<Rightarrow> string \<Rightarrow> number" where
  "calculateMetaTagsScore title description canonical viewport ogTitle ogDescription ogImage
       twitterCard =
     (let maxScore = (100 :: number);
          s1 = (if title \<noteq> []
                then 10 + (if length title \<ge> 30 \<and> length title \<le> 70 then 10
                           else if length title > 0 then 5 else 0)
                else 0);
          s2 = (if description \<noteq> []
                then 10 + (if length description \<ge> 120 \<and> length description \<le> 160 then 10
                           else if length description > 0 then 5 else 0)
                else 0);
          s3 = (if canonical \<noteq> [] then 10 else 0);
          s4 = (if viewport \<noteq> [] then 10 else 0);
          s5 = (if ogTitle \<noteq> [] then 5 else 0);
          s6 = (if ogDescription \<noteq> [] then 5 else 0);
          s7 = (if ogImage \<noteq> [] then 10 else 0);
          s8 = (if twitterCard \<noteq> [] then 10 else 0);
          s9 = (if twitterCard \<noteq> [] \<and>
                   (twitterCard = ''summary'' \<or> twitterCard = ''summary_large_image'')
                then 10 else 0);
          score = (s1 + s2 + s3 + s4 + s5 + s6 + s7 + s8 + s9 :: number)
      in Math_round ((score / maxScore) * 100))"

definition sizedTag :: "string \<Rightarrow> nat \<Rightarrow> nat \<Rightarrow> sized_tag" where
  \<comment> \<open>The object built for the title (bounds 30 and 70) and for the description
      (bounds 120 and 160).\<close>
  "sizedTag s lo hi =
     \<lparr>st_content = s,
      st_status = (if length s > 0
                   then (if length s > hi then too_long
                         else (if length s < lo then too_short else good_len))
                   else missing_len),
      st_length = length s\<rparr>"

definition plainTag :: "string \<Rightarrow> plain_tag" where
  "plainTag s = \<lparr>pt_content = s, pt_status = (if s \<noteq> [] then present else missing)\<rparr>"

definition metaContent :: "document \<Rightarrow> string \<Rightarrow> string \<Rightarrow> string" where
  \<comment> \<open>\<^verbatim>\<open>$('meta[k="v"]').attr('content') || ''\<close>\<close>
  "metaContent doc k v = orEmpty (firstAttr (selectAttr doc ''meta'' k v) ''content'')"

definition extractMetaTags :: "document \<Rightarrow> string \<Rightarrow> meta_tags" where
  "extractMetaTags doc url =
     (let title = texts (select doc ''title'');
          metaDescription = metaContent doc ''name'' ''description'';
          canonicalUrl = orEmpty (firstAttr (selectAttr doc ''link'' ''rel'' ''canonical'') ''href'');
          viewport = metaContent doc ''name'' ''viewport'';
          ogTitle = metaContent doc ''property'' ''og:title'';
          ogDescription = metaContent doc ''property'' ''og:description'';
          ogUrl = metaContent doc ''property'' ''og:url'';
          ogImage = metaContent doc ''property'' ''og:image'';
          ogType = metaContent doc ''property'' ''og:type'';
          twitterCard = metaContent doc ''name'' ''twitter:card'';
          twitterTitle = metaContent doc ''name'' ''twitter:title'';
          twitterDescription = metaContent doc ''name'' ''twitter:description'';
          twitterImage = metaContent doc ''name'' ''twitter:image'';
          robots = metaContent doc ''name'' ''robots'';
          metaTagsScore = calculateMetaTagsScore title metaDescription canonicalUrl viewport
                            ogTitle ogDescription ogImage twitterCard
      in \<lparr>mt_basic = \<lparr>b_title = sizedTag title 30 70,
                       b_description = sizedTag metaDescription 120 160,
                       b_canonical = plainTag canonicalUrl,
                       b_viewport = plainTag viewport,
                       b_robots = plainTag robots\<rparr>,
          mt_openGraph = \<lparr>og_title = plainTag ogTitle,
                           og_description = plainTag ogDescription,
                           og_url = plainTag ogUrl,
                           og_image = plainTag ogImage,
                           og_type = plainTag ogType\<rparr>,
          mt_twitter = \<lparr>tw_card = plainTag twitterCard,
                         tw_title = plainTag twitterTitle,
                         tw_description = plainTag twitterDescription,
                         tw_image = plainTag twitterImage\<rparr>,
          mt_score = metaTagsScore\<rparr>)"


section \<open>The URL constructor\<close>

text \<open>
  \<^verbatim>\<open>new URL(...)\<close> belongs to the runtime, not to the repository, and it throws a
  \<^verbatim>\<open>TypeError\<close> on input it cannot parse. The extractors take it as a parameter:
  \<open>URL_origin u\<close> is \<^verbatim>\<open>new URL(u).origin\<close> and \<open>URL_href r b\<close> is
  \<^verbatim>\<open>new URL(r, b).href\<close>, with \<open>None\<close> where the constructor throws.
\<close>

record url_lib =
  URL_origin :: "string \<Rightarrow> string option"
  URL_href :: "string \<Rightarrow> string \<Rightarrow> string option"

datatype error = TypeError_Invalid_URL


section \<open>Images\<close>

record image =
  img_src :: string
  img_alt :: string
  img_hasAlt :: bool
  img_size :: "string option"

record image_analysis =
  totalImages :: nat
  imagesWithAlt :: nat
  missingAltCount :: nat
  altTextPercentage :: number
  ia_status :: quality

record image_facts =
  if_images :: "image list"
  if_analysis :: image_analysis

definition calculateImageStatus :: "nat \<Rightarrow> nat \<Rightarrow> quality" where
  "calculateImageStatus nImages nMissingAlt =
     (if nImages = 0 \<or> nMissingAlt = 0 then good
      else if (of_nat nMissingAlt :: number) / of_nat nImages < 0.2 then needs_improvement
      else poor)"

fun eachImage :: "url_lib \<Rightarrow> string \<Rightarrow> node list \<Rightarrow> image list \<Rightarrow> error + image list" where
  \<comment> \<open>The \<^verbatim>\<open>$('img').each\<close> loop, pushing onto \<open>images\<close>. The call of the URL
      constructor stands unguarded in the loop body, so its exception leaves the loop
      and the extractor.\<close>
  "eachImage lib url [] images = Inr images"
| "eachImage lib url (el # els) images =
     (let src = orEmpty (attr el ''src'');
          alt = orEmpty (attr el ''alt'');
          hasAlt = (length alt > 0)
      in case (if startsWith src ''http'' then Some src else URL_href lib src url) of
           None \<Rightarrow> Inl TypeError_Invalid_URL
         | Some fullSrc \<Rightarrow>
             eachImage lib url els
               (images @ [\<lparr>img_src = fullSrc, img_alt = alt, img_hasAlt = hasAlt,
                            img_size = None\<rparr>]))"

definition extractImages :: "url_lib \<Rightarrow> document \<Rightarrow> string \<Rightarrow> error + image_facts" where
  "extractImages lib doc url =
     (case eachImage lib url (select doc ''img'') [] of
        Inl e \<Rightarrow> Inl e
      | Inr images \<Rightarrow>
          (let nImages = length images;
               withAlt = length (filter img_hasAlt images);
               missingAlt = nImages - withAlt
           in Inr \<lparr>if_images = images,
                   if_analysis =
                     \<lparr>totalImages = nImages, imagesWithAlt = withAlt,
                      missingAltCount = missingAlt,
                      altTextPercentage =
                        (if nImages > 0
                         then Math_round ((of_nat withAlt / of_nat nImages) * 100)
                         else 100),
                      ia_status = calculateImageStatus nImages missingAlt\<rparr>\<rparr>))"


section \<open>Links\<close>

record internal_link =
  il_text :: string
  il_url :: string
  il_isGeneric :: bool

record external_link =
  el_text :: string
  el_url :: string
  el_hasRel :: bool

record link_lists =
  internal :: "internal_link list"
  external :: "external_link list"

record link_analysis =
  totalLinks :: nat
  internalLinks :: nat
  externalLinks :: nat
  genericInternalLinks :: nat
  externalLinksWithoutRel :: nat
  la_status :: quality

record link_facts =
  lf_links :: link_lists
  lf_analysis :: link_analysis

definition genericTexts :: "string list" where
  "genericTexts = [''click here'', ''read more'', ''learn more'', ''more info'', ''details'', ''here'']"

definition isGenericLinkText :: "string \<Rightarrow> bool" where
  "isGenericLinkText t = list_ex (\<lambda>generic. includesStr (toLowerCase t) generic) genericTexts"

definition calculateLinkStatus :: "nat \<Rightarrow> nat \<Rightarrow> nat \<Rightarrow> nat \<Rightarrow> quality" where
  "calculateLinkStatus internalCount genericInternalCount externalCount externalWithoutRelCount =
     (if internalCount = 0 then poor
      else
        (let genericRatio =
               (if internalCount > 0
                then (of_nat genericInternalCount :: number) / of_nat internalCount else 0);
             missingRelRatio =
               (if externalCount > 0
                then (of_nat externalWithoutRelCount :: number) / of_nat externalCount else 0)
         in if genericRatio > 0.2 \<or> missingRelRatio > 0.2 then needs_improvement else good))"

fun eachAnchor ::
  "url_lib \<Rightarrow> string \<Rightarrow> string \<Rightarrow> node list \<Rightarrow> link_lists \<Rightarrow> link_lists" where
  \<comment> \<open>The \<^verbatim>\<open>$('a').each\<close> loop, pushing onto \<open>internalLinks\<close> or \<open>externalLinks\<close>.
      Here the call of the URL constructor stands in \<^verbatim>\<open>try\<close>, and the handler
      returns from the loop body.\<close>
  "eachAnchor lib url baseUrl [] acc = acc"
| "eachAnchor lib url baseUrl (el # els) acc =
     (let href = orEmpty (attr el ''href'');
          txt = trim (text_of el);
          rel = orEmpty (attr el ''rel'');
          isGeneric = isGenericLinkText txt
      in if href = [] \<or> startsWith href ''javascript:'' \<or> href = ''#''
         then eachAnchor lib url baseUrl els acc
         else
           case (if startsWith href ''http'' then Some href else URL_href lib href url) of
             None \<Rightarrow> eachAnchor lib url baseUrl els acc
           | Some fullUrl \<Rightarrow>
               if startsWith fullUrl baseUrl
               then eachAnchor lib url baseUrl els
                      (acc\<lparr>internal := internal acc @
                             [\<lparr>il_text = txt, il_url = fullUrl, il_isGeneric = isGeneric\<rparr>]\<rparr>)
               else eachAnchor lib url baseUrl els
                      (acc\<lparr>external := external acc @
                             [\<lparr>el_text = txt, el_url = fullUrl,
                               el_hasRel = (includesStr rel ''noopener'' \<or>
                                            includesStr rel ''noreferrer'')\<rparr>]\<rparr>))"

definition extractLinks :: "url_lib \<Rightarrow> document \<Rightarrow> string \<Rightarrow> error + link_facts" where
  "extractLinks lib doc url =
     (case URL_origin lib url of
        None \<Rightarrow> Inl TypeError_Invalid_URL
      | Some baseUrl \<Rightarrow>
          (let ls = eachAnchor lib url baseUrl (select doc ''a'') \<lparr>internal = [], external = []\<rparr>;
               internalLinks = internal ls;
               externalLinks = external ls;
               nLinks = length internalLinks + length externalLinks;
               genericInternal = length (filter il_isGeneric internalLinks);
               withoutRel = length (filter (\<lambda>link. \<not> el_hasRel link) externalLinks)
           in Inr \<lparr>lf_links = ls,
                   lf_analysis =
                     \<lparr>totalLinks = nLinks,
                      internalLinks = length internalLinks,
                      externalLinks = length externalLinks,
                      genericInternalLinks = genericInternal,
                      externalLinksWithoutRel = withoutRel,
                      la_status = calculateLinkStatus (length internalLinks) genericInternal
                                    (length externalLinks) withoutRel\<rparr>\<rparr>))"


section \<open>Performance estimate\<close>

text \<open>
  The report also holds renderings of some numbers as text (\<^verbatim>\<open>estimatedLoadTime\<close>,
  \<^verbatim>\<open>firstContentfulPaint\<close>, \<^verbatim>\<open>largestContentfulPaint\<close>, the constant
  \<^verbatim>\<open>cumulativeLayoutShift\<close>, and \<^verbatim>\<open>avgWordsPerSentence\<close> of the content metrics).
  No score reads them; the records below keep the numbers and leave the renderings out.
\<close>

record performance_resources =
  pr_scripts :: nat
  pr_styles :: nat
  pr_images :: nat
  pr_iframes :: nat
  pr_total :: nat

record performance_metrics =
  estimatedLoadTimeValue :: number

record performance_facts =
  pf_resources :: performance_resources
  pf_metrics :: performance_metrics
  pf_score :: number

definition calculatePerformanceScore :: "nat \<Rightarrow> number \<Rightarrow> nat \<Rightarrow> number" where
  "calculatePerformanceScore totalResources loadTime scriptCount =
     (let p1 = (if totalResources > 50 then 30
                else if totalResources > 30 then 20
                else if totalResources > 15 then 10 else 0);
          p2 = (if loadTime > 3 then 30
                else if loadTime > 2 then 15
                else if loadTime > 1 then 5 else 0);
          p3 = (if scriptCount > 15 then 15
                else if scriptCount > 10 then 10
                else if scriptCount > 5 then 5 else 0);
          score = (100 - p1 - p2 - p3 :: number)
      in max 0 (min 100 score))"

definition estimatePerformance :: "document \<Rightarrow> performance_facts" where
  "estimatePerformance doc =
     (let scriptCount = length (select doc ''script'');
          cssCount = length (selectAttr doc ''link'' ''rel'' ''stylesheet'');
          imageCount = length (select doc ''img'');
          iframeCount = length (select doc ''iframe'');
          totalResources = scriptCount + cssCount + imageCount + iframeCount;
          baseLoadTime = (0.5 :: number);
          resourceLoadTime = of_nat totalResources * (0.1 :: number);
          estimatedLoadTime = toFixed1 (baseLoadTime + resourceLoadTime);
          performanceScore = calculatePerformanceScore totalResources estimatedLoadTime scriptCount
      in \<lparr>pf_resources = \<lparr>pr_scripts = scriptCount, pr_styles = cssCount,
                           pr_images = imageCount, pr_iframes = iframeCount,
                           pr_total = totalResources\<rparr>,
          pf_metrics = \<lparr>estimatedLoadTimeValue = estimatedLoadTime\<rparr>,
          pf_score = performanceScore\<rparr>)"


section \<open>Mobile friendliness\<close>

record mobile_features =
  hasViewport :: bool
  hasMediaQueries :: bool
  hasResponsiveIndicators :: bool

record mobile_facts =
  mf_features :: mobile_features
  mf_score :: number

definition calculateMobileScore :: "bool \<Rightarrow> bool \<Rightarrow> bool \<Rightarrow> number" where
  "calculateMobileScore viewportTag mediaQueries responsiveClasses =
     (let s0 = (0 :: number);
          s1 = (if viewportTag then s0 + 50 else s0);
          s2 = (if mediaQueries then s1 + 25 else s1);
          s3 = (if responsiveClasses then s2 + 25 else s2);
          s4 = (if \<not> mediaQueries \<and> \<not> responsiveClasses \<and> viewportTag then s3 + 20 else s3)
      in s4)"

definition checkMobileFriendliness :: "document \<Rightarrow> mobile_facts" where
  "checkMobileFriendliness doc =
     (let viewportTag = (length (selectAttr doc ''meta'' ''name'' ''viewport'') > 0);
          mediaQueries = includesStr (texts (select doc ''style'')) ''@media'';
          htmlClass = orEmpty (firstAttr (select doc ''html'') ''class'');
          bodyClass = orEmpty (firstAttr (select doc ''body'') ''class'');
          responsiveClasses =
            (includesStr htmlClass ''responsive'' \<or> includesStr bodyClass ''responsive'');
          mobileScore = calculateMobileScore viewportTag mediaQueries responsiveClasses
      in \<lparr>mf_features = \<lparr>hasViewport = viewportTag, hasMediaQueries = mediaQueries,
                          hasResponsiveIndicators = responsiveClasses\<rparr>,
          mf_score = mobileScore\<rparr>)"


section \<open>Content\<close>

record content_metrics =
  wordCount :: nat
  paragraphCount :: nat
  readabilityScore :: number

record content_facts =
  cf_metrics :: content_metrics
  cf_score :: number

definition calculateContentScore :: "nat \<Rightarrow> nat \<Rightarrow> number \<Rightarrow> number" where
  "calculateContentScore nWords nParagraphs readability =
     (let s1 = (if nWords > 1000 then 30
                else if nWords > 500 then 20
                else if nWords > 300 then 10 else 0);
          s2 = (if nParagraphs > 0 \<and> (of_nat nWords :: number) / of_nat nParagraphs < 150 then 20
                else if nParagraphs > 0 then 10 else 0);
          score = (s1 + s2 + readability * 0.5 :: number)
      in min 100 score)"

definition cleanBodyText :: "document \<Rightarrow> string" where
  \<comment> \<open>\<^verbatim>\<open>$('body').text().replace(/\s+/g, ' ').trim()\<close>\<close>
  "cleanBodyText doc = trim (replaceRuns isWhiteSpace '' '' (texts (select doc ''body'')))"

definition analyzeContent :: "document \<Rightarrow> content_facts" where
  "analyzeContent doc =
     (let cleanText = cleanBodyText doc;
          nWords = length (str_split isWhiteSpace cleanText);
          nParagraphs = length (select doc ''p'');
          sentenceCount = length (str_split isSentenceEnd cleanText);
          avgWordsPerSentence =
            (of_nat nWords :: number) / of_nat (if sentenceCount \<noteq> 0 then sentenceCount else 1);
          readability = min 100 (max 0 (100 - \<bar>avgWordsPerSentence - 15\<bar> * 3));
          contentScore = calculateContentScore nWords nParagraphs readability
      in \<lparr>cf_metrics = \<lparr>wordCount = nWords, paragraphCount = nParagraphs,
                         readabilityScore = readability\<rparr>,
          cf_score = contentScore\<rparr>)"


section \<open>The overall score and the report\<close>

definition calculateOverallScore ::
  "number \<Rightarrow> number \<Rightarrow> number \<Rightarrow> number \<Rightarrow> number \<Rightarrow> number \<Rightarrow> number \<Rightarrow> number" where
  "calculateOverallScore metaTagsScore headingsScore imagesScore linksScore performanceScore
       mobileScore contentScore =
     (let weightedScore =
            metaTagsScore * 0.2 +
            headingsScore * 0.1 +
            imagesScore * 0.1 +
            linksScore * 0.15 +
            performanceScore * 0.2 +
            mobileScore * 0.15 +
            contentScore * 0.1
      in Math_round weightedScore)"

text \<open>
  The report of \<^verbatim>\<open>analyzeSEO\<close>, without its three lists of findings: they are
  computed from the bundles below and feed no score.
\<close>

record report =
  r_url :: string
  r_title :: string
  r_description :: string
  r_seoScore :: number
  r_metaTagsScore :: number
  r_contentScore :: number
  r_linksScore :: number
  r_performanceScore :: number
  r_mobileScore :: number
  r_metaTags :: meta_tags
  r_headings :: heading_facts
  r_links :: link_facts
  r_images :: image_facts
  r_performanceMetrics :: performance_facts
  r_contentAnalysis :: content_facts

definition linksProxy :: "quality \<Rightarrow> number" where
  \<comment> \<open>\<^verbatim>\<open>status === 'good' ? 80 : (status === 'needs_improvement' ? 60 : 40)\<close>\<close>
  "linksProxy st = (if st = good then 80 else (if st = needs_improvement then 60 else 40))"

definition analyzeSEO :: "url_lib \<Rightarrow> document \<Rightarrow> string \<Rightarrow> error + report" where
  \<comment> \<open>The body of \<^verbatim>\<open>analyzeSEO\<close> after the page has been fetched; \<open>doc\<close> is the
      fetched page as \<^verbatim>\<open>cheerio.load\<close> parses it. An exception of an extractor is
      thrown on by the handler.\<close>
  "analyzeSEO lib doc url =
     (let metaTags = extractMetaTags doc url;
          headings = extractHeadings doc
      in case extractImages lib doc url of
           Inl e \<Rightarrow> Inl e
         | Inr images \<Rightarrow>
             (case extractLinks lib doc url of
                Inl e \<Rightarrow> Inl e
              | Inr links \<Rightarrow>
                  (let performance = estimatePerformance doc;
                       mobile = checkMobileFriendliness doc;
                       content = analyzeContent doc;
                       overallScore =
                         calculateOverallScore
                           (mt_score metaTags)
                           (if hasProperH1 (hf_analysis headings) then 100 else 50)
                           (altTextPercentage (if_analysis images))
                           (linksProxy (la_status (lf_analysis links)))
                           (pf_score performance)
                           (mf_score mobile)
                           (cf_score content)
                   in Inr \<lparr>r_url = url,
                           r_title = st_content (b_title (mt_basic metaTags)),
                           r_description = st_content (b_description (mt_basic metaTags)),
                           r_seoScore = overallScore,
                           r_metaTagsScore = mt_score metaTags,
                           r_contentScore = cf_score content,
                           r_linksScore = linksProxy (la_status (lf_analysis links)),
                           r_performanceScore = pf_score performance,
                           r_mobileScore = mf_score mobile,
                           r_metaTags = metaTags,
                           r_headings = headings,
                           r_links = links,
                           r_images = images,
                           r_performanceMetrics = performance,
                           r_contentAnalysis = content\<rparr>)))"


section \<open>Notions used to state the properties\<close>

definition percent :: "number \<Rightarrow> bool" where
  \<comment> \<open>A score between 0 and 100.\<close>
  "percent x = (0 \<le> x \<and> x \<le> 100)"

definition resolveUrl :: "url_lib \<Rightarrow> string \<Rightarrow> string \<Rightarrow> string option" where
  \<comment> \<open>\<^verbatim>\<open>ref.startsWith('http') ? ref : new URL(ref, url).href\<close>, the expression both
      loops evaluate; \<open>None\<close> where it throws.\<close>
  "resolveUrl lib url ref = (if startsWith ref ''http'' then Some ref else URL_href lib ref url)"




function tokens :: "(char \<Rightarrow> bool) \<Rightarrow> string \<Rightarrow> string list" where
  \<comment> \<open>The tokens of a text separated by characters of the class \<open>C\<close>: its maximal
      runs of characters outside the class. A text without such characters has none.\<close>
  "tokens C [] = []"
| "tokens C (c # cs) =
     (if C c then tokens C cs
      else (c # takeWhile (\<lambda>x. \<not> C x) cs) # tokens C (dropWhile (\<lambda>x. \<not> C x) cs))"
  by pat_completeness auto
termination
  by (relation "measure (\<lambda>(C, s). length s)")
     (auto simp: length_dropWhile_le less_Suc_eq_le)


section \<open>Example pages\<close>

definition example_url :: string where
  "example_url = ''http://example.com/''"

definition example_lib :: url_lib where
  \<comment> \<open>An excerpt of the URL constructor, enough for the example pages: the origin of
      \<open>example_url\<close> and three paths resolved against it. The reference \<^verbatim>\<open>//\<close> has
      no host, and the constructor throws on it.\<close>
  "example_lib =
     \<lparr>URL_origin = (\<lambda>u. if u = ''http://example.com/'' then Some ''http://example.com'' else None),
      URL_href = (\<lambda>r b. if b = ''http://example.com/''
                          then map_of [(''/about'', ''http://example.com/about''),
                                       (''/logo.png'', ''http://example.com/logo.png''),
                                       (''/team.png'', ''http://example.com/team.png'')] r
                          else None)\<rparr>"

definition page_blank :: document where
  \<comment> \<open>\<^verbatim>\<open><html><head></head><body></body></html>\<close>\<close>
  "page_blank = Element ''html'' [] [Element ''head'' [] [], Element ''body'' [] []]"

definition page_text :: document where
  \<comment> \<open>A body holding the text \<^verbatim>\<open>a. b c\<close>: three words in two sentences.\<close>
  "page_text = Element ''html'' [] [Element ''head'' [] [], Element ''body'' [] [Text ''a. b c'']]"

definition page_sample :: document where
  "page_sample =
     Element ''html'' []
       [Element ''head'' []
          [Element ''title'' [] [Text ''Sample''],
           Element ''meta'' [(''name'', ''viewport''), (''content'', ''width=device-width'')] []],
        Element ''body'' []
          [Element ''h1'' [] [Text '' Sample page ''],
           Element ''h3'' [] [Text ''Details''],
           Element ''p'' [] [Text ''One two. Three four five six''],
           Element ''img'' [(''src'', ''/logo.png''), (''alt'', ''Logo'')] [],
           Element ''img'' [(''src'', ''/team.png'')] [],
           Element ''img'' [(''src'', ''https://cdn.example.org/a.png''), (''alt'', [])] [],
           Element ''a'' [(''href'', ''#'')] [Text ''top''],
           Element ''a'' [(''href'', ''javascript:void(0)'')] [Text ''menu''],
           Element ''a'' [] [Text ''anchor''],
           Element ''a'' [(''href'', ''//'')] [Text ''broken''],
           Element ''a'' [(''href'', ''/about'')] [Text ''About us''],
           Element ''a'' [(''href'', ''https://other.example.org/'')] [Text ''Partner'']]]"

definition page_proper :: document where
  \<comment> \<open>One h1 and one h2.\<close>
  "page_proper =
     Element ''html'' []
       [Element ''head'' [] [],
        Element ''body'' [] [Element ''h1'' [] [Text ''Top''], Element ''h2'' [] [Text ''Part'']]]"

definition page_broken_image :: document where
  \<comment> \<open>\<^verbatim>\<open><html><head></head><body><img src="//"></body></html>\<close>\<close>
  "page_broken_image =
     Element ''html'' []
       [Element ''head'' [] [], Element ''body'' [] [Element ''img'' [(''src'', ''//'')] []]]"


section \<open>Rounding and ranges\<close>

lemma Math_round_Ints: "Math_round x \<in> \<int>"
  by (simp add: Math_round_def)

lemma Math_round_percent:
  assumes "0 \<le> x" and "x \<le> 100"
  shows "0 \<le> Math_round x \<and> Math_round x \<le> 100"
proof -
  have lo: "0 \<le> \<lfloor>x + 1 / 2\<rfloor>"
    using assms(1) by (simp add: zero_le_floor)
  have "x + 1 / 2 < of_int 101"
    using assms(2) by simp
  then have "\<lfloor>x + 1 / 2\<rfloor> < 101"
    by (simp only: floor_less_iff)
  then have hi: "\<lfloor>x + 1 / 2\<rfloor> \<le> 100" by simp
  have "(of_int \<lfloor>x + 1 / 2\<rfloor> :: rat) \<le> of_int 100"
    using hi by (simp only: of_int_le_iff)
  with lo show ?thesis by (simp add: Math_round_def)
qed

lemma Ints_min: "(x :: rat) \<in> \<int> \<Longrightarrow> y \<in> \<int> \<Longrightarrow> min x y \<in> \<int>"
  by (simp add: min_def)

lemma Ints_max: "(x :: rat) \<in> \<int> \<Longrightarrow> y \<in> \<int> \<Longrightarrow> max x y \<in> \<int>"
  by (simp add: max_def)

subsection \<open>Meta tags\<close>

lemma calculateMetaTagsScore_Ints:
  "calculateMetaTagsScore t d c v ot od oi tc \<in> \<int>"
  by (simp add: calculateMetaTagsScore_def Let_def Math_round_Ints)

lemma calculateMetaTagsScore_range:
  "0 \<le> calculateMetaTagsScore t d c v ot od oi tc \<and>
   calculateMetaTagsScore t d c v ot od oi tc \<le> 100"
proof -
  define s1 :: rat where "s1 = (if t \<noteq> []
                then 10 + (if length t \<ge> 30 \<and> length t \<le> 70 then 10
                           else if length t > 0 then 5 else 0)
                else 0)"
  define s2 :: rat where "s2 = (if d \<noteq> []
                then 10 + (if length d \<ge> 120 \<and> length d \<le> 160 then 10
                           else if length d > 0 then 5 else 0)
                else 0)"
  define s3 :: rat where "s3 = (if c \<noteq> [] then 10 else 0)"
  define s4 :: rat where "s4 = (if v \<noteq> [] then 10 else 0)"
  define s5 :: rat where "s5 = (if ot \<noteq> [] then 5 else 0)"
  define s6 :: rat where "s6 = (if od \<noteq> [] then 5 else 0)"
  define s7 :: rat where "s7 = (if oi \<noteq> [] then 10 else 0)"
  define s8 :: rat where "s8 = (if tc \<noteq> [] then 10 else 0)"
  define s9 :: rat where "s9 = (if tc \<noteq> [] \<and> (tc = ''summary'' \<or> tc = ''summary_large_image'')
                then 10 else 0)"
  have b1: "0 \<le> s1 \<and> s1 \<le> 20" by (simp add: s1_def)
  have b2: "0 \<le> s2 \<and> s2 \<le> 20" by (simp add: s2_def)
  have b3: "0 \<le> s3 \<and> s3 \<le> 10" by (simp add: s3_def)
  have b4: "0 \<le> s4 \<and> s4 \<le> 10" by (simp add: s4_def)
  have b5: "0 \<le> s5 \<and> s5 \<le> 5" by (simp add: s5_def)
  have b6: "0 \<le> s6 \<and> s6 \<le> 5" by (simp add: s6_def)
  have b7: "0 \<le> s7 \<and> s7 \<le> 10" by (simp add: s7_def)
  have b8: "0 \<le> s8 \<and> s8 \<le> 10" by (simp add: s8_def)
  have b9: "0 \<le> s9 \<and> s9 \<le> 10" by (simp add: s9_def)
  define score where "score = s1 + s2 + s3 + s4 + s5 + s6 + s7 + s8 + s9"
  have eq: "calculateMetaTagsScore t d c v ot od oi tc = Math_round ((score / 100) * 100)"
    unfolding calculateMetaTagsScore_def Let_def score_def s1_def s2_def s3_def s4_def s5_def
      s6_def s7_def s8_def s9_def ..
  have "0 \<le> score \<and> score \<le> 100"
    unfolding score_def using b1 b2 b3 b4 b5 b6 b7 b8 b9 by linarith
  then have "0 \<le> (score / 100) * 100 \<and> (score / 100) * 100 \<le> 100" by simp
  then show ?thesis
    unfolding eq using Math_round_percent by blast
qed

subsection \<open>Performance\<close>

lemma calculatePerformanceScore_range:
  "0 \<le> calculatePerformanceScore n t s \<and> calculatePerformanceScore n t s \<le> 100"
  by (simp add: calculatePerformanceScore_def Let_def)

lemma calculatePerformanceScore_Ints: "calculatePerformanceScore n t s \<in> \<int>"
  unfolding calculatePerformanceScore_def Let_def
  by (intro Ints_max Ints_min Ints_diff) simp_all

subsection \<open>Mobile\<close>


lemma calculateMobileScore_range:
  "0 \<le> calculateMobileScore v m r \<and> calculateMobileScore v m r \<le> 100"
  by (cases v; cases m; cases r) (simp_all add: calculateMobileScore_def)

lemma calculateMobileScore_Ints: "calculateMobileScore v m r \<in> \<int>"
  by (cases v; cases m; cases r) (simp_all add: calculateMobileScore_def)

subsection \<open>Content\<close>

lemma calculateContentScore_range:
  assumes "0 \<le> rd" and "rd \<le> 100"
  shows "0 \<le> calculateContentScore w p rd \<and> calculateContentScore w p rd \<le> 100"
  using assms by (simp add: calculateContentScore_def Let_def)

lemma linksProxy_range: "0 \<le> linksProxy st \<and> linksProxy st \<le> 100"
  by (simp add: linksProxy_def)

lemma linksProxy_Ints: "linksProxy st \<in> \<int>"
  by (simp add: linksProxy_def)

lemma calculateOverallScore_range:
  assumes "0 \<le> a \<and> a \<le> 100" "0 \<le> b \<and> b \<le> 100" "0 \<le> c \<and> c \<le> 100"
    "0 \<le> d \<and> d \<le> 100" "0 \<le> e \<and> e \<le> 100" "0 \<le> f \<and> f \<le> 100" "0 \<le> g \<and> g \<le> 100"
  shows "0 \<le> calculateOverallScore a b c d e f g \<and> calculateOverallScore a b c d e f g \<le> 100"
proof -
  let ?w = "a * 0.2 + b * 0.1 + c * 0.1 + d * 0.15 + e * 0.2 + f * 0.15 + g * 0.1"
  have "0 \<le> ?w \<and> ?w \<le> 100" using assms by simp
  then show ?thesis
    unfolding calculateOverallScore_def Let_def using Math_round_percent by blast
qed


section \<open>The extractors\<close>

lemma mt_score_extractMetaTags:
  "percent (mt_score (extractMetaTags doc url)) \<and> mt_score (extractMetaTags doc url) \<in> \<int>"
  by (simp add: extractMetaTags_def Let_def percent_def calculateMetaTagsScore_range
      calculateMetaTagsScore_Ints)

lemma pf_score_estimatePerformance:
  "percent (pf_score (estimatePerformance doc)) \<and> pf_score (estimatePerformance doc) \<in> \<int>"
  by (simp add: estimatePerformance_def Let_def percent_def calculatePerformanceScore_range
      calculatePerformanceScore_Ints)

lemma mf_score_checkMobileFriendliness:
  "percent (mf_score (checkMobileFriendliness doc)) \<and>
   mf_score (checkMobileFriendliness doc) \<in> \<int>"
  by (simp add: checkMobileFriendliness_def Let_def percent_def calculateMobileScore_range
      calculateMobileScore_Ints)

lemma readabilityScore_analyzeContent:
  "percent (readabilityScore (cf_metrics (analyzeContent doc)))"
  by (simp add: analyzeContent_def Let_def percent_def)

lemma cf_score_analyzeContent: "percent (cf_score (analyzeContent doc))"
proof -
  have "0 \<le> rd \<and> rd \<le> 100 \<Longrightarrow> percent (calculateContentScore w p rd)" for w p rd
    using calculateContentScore_range [of rd w p] by (simp add: percent_def)
  then show ?thesis
    by (simp add: analyzeContent_def Let_def)
qed

lemma extractImages_Inr:
  assumes "extractImages lib doc url = Inr f"
  obtains images where
    "eachImage lib url (select doc ''img'') [] = Inr images"
    "if_images f = images"
    "totalImages (if_analysis f) = length images"
    "imagesWithAlt (if_analysis f) = length (filter img_hasAlt images)"
    "missingAltCount (if_analysis f) = length images - length (filter img_hasAlt images)"
    "altTextPercentage (if_analysis f) =
       (if length images > 0
        then Math_round ((of_nat (length (filter img_hasAlt images)) / of_nat (length images)) * 100)
        else 100)"
    "ia_status (if_analysis f) =
       calculateImageStatus (length images) (length images - length (filter img_hasAlt images))"
proof (cases "eachImage lib url (select doc ''img'') []")
  case (Inl e)
  with assms show ?thesis by (simp add: extractImages_def)
next
  case (Inr images)
  with assms have
    "f = \<lparr>if_images = images,
          if_analysis =
            \<lparr>totalImages = length images,
             imagesWithAlt = length (filter img_hasAlt images),
             missingAltCount = length images - length (filter img_hasAlt images),
             altTextPercentage =
               (if length images > 0
                then Math_round ((of_nat (length (filter img_hasAlt images)) / of_nat (length images)) * 100)
                else 100),
             ia_status = calculateImageStatus (length images)
                           (length images - length (filter img_hasAlt images))\<rparr>\<rparr>"
    by (simp add: extractImages_def Let_def)
  then show ?thesis using that [of images] Inr by simp
qed

lemma ratio_percent:
  fixes xs :: "'a list"
  shows "percent (Math_round ((of_nat (length (filter P xs)) / of_nat (length xs)) * 100))"
proof -
  define q where "q = (of_nat (length (filter P xs)) :: rat) / of_nat (length xs)"
  have "(of_nat (length (filter P xs)) :: rat) \<le> of_nat (length xs)"
    by (simp only: of_nat_le_iff length_filter_le)
  then have "0 \<le> q \<and> q \<le> 1"
    unfolding q_def by (cases "length xs = 0") (simp_all add: divide_le_eq_1)
  then have "0 \<le> q * 100 \<and> q * 100 \<le> 100" by simp
  then have "percent (Math_round (q * 100))"
    unfolding percent_def using Math_round_percent by blast
  then show ?thesis by (simp only: q_def)
qed

lemma altTextPercentage_extractImages:
  assumes "extractImages lib doc url = Inr f"
  shows "percent (altTextPercentage (if_analysis f)) \<and> altTextPercentage (if_analysis f) \<in> \<int>"
  using assms
proof (rule extractImages_Inr)
  fix images
  assume f: "altTextPercentage (if_analysis f) =
          (if length images > 0
           then Math_round ((of_nat (length (filter img_hasAlt images)) / of_nat (length images)) * 100)
           else 100)"
  show ?thesis
  proof (cases "length images > 0")
    case True
    then show ?thesis
      using ratio_percent [of img_hasAlt images] by (simp only: f if_True Math_round_Ints)
  next
    case False
    then show ?thesis by (simp add: f percent_def)
  qed
qed

lemma analyzeSEO_Inr:
  assumes "analyzeSEO lib doc url = Inr r"
  shows "\<exists>images links.
           extractImages lib doc url = Inr images \<and> extractLinks lib doc url = Inr links \<and>
           r_metaTags r = extractMetaTags doc url \<and>
           r_headings r = extractHeadings doc \<and>
           r_images r = images \<and>
           r_links r = links \<and>
           r_performanceMetrics r = estimatePerformance doc \<and>
           r_contentAnalysis r = analyzeContent doc \<and>
           r_metaTagsScore r = mt_score (extractMetaTags doc url) \<and>
           r_contentScore r = cf_score (analyzeContent doc) \<and>
           r_linksScore r = linksProxy (la_status (lf_analysis links)) \<and>
           r_performanceScore r = pf_score (estimatePerformance doc) \<and>
           r_mobileScore r = mf_score (checkMobileFriendliness doc) \<and>
           r_seoScore r =
             calculateOverallScore (mt_score (extractMetaTags doc url))
               (if hasProperH1 (hf_analysis (extractHeadings doc)) then 100 else 50)
               (altTextPercentage (if_analysis images))
               (linksProxy (la_status (lf_analysis links)))
               (pf_score (estimatePerformance doc))
               (mf_score (checkMobileFriendliness doc))
               (cf_score (analyzeContent doc))"
  using assms unfolding analyzeSEO_def Let_def
  by (auto split: sum.splits)


lemma returns_Inr: "\<not> isl x \<Longrightarrow> \<exists>r. x = Inr r"
  by (cases x) simp_all

lemma half_not_int: "(119 / 2 :: rat) \<notin> \<int>"
proof
  assume "(119 / 2 :: rat) \<in> \<int>"
  then obtain k :: int where "(119 / 2 :: rat) = of_int k"
    by (rule Ints_cases)
  then have "(of_int 119 :: rat) = of_int (2 * k)" by simp
  then have "119 = 2 * k" by (simp only: of_int_eq_iff)
  then show False by presburger
qed

text \<open>
  Claim C10. Whenever \<^verbatim>\<open>hasLogicalStructure\<close> holds the page has exactly one h1, so
  \<^verbatim>\<open>hasProperH1\<close> holds as well; the heading status is \<^verbatim>\<open>needs_improvement\<close>
  exactly when there is one h1 and the structure is not logical. The other way to reach
  that status, a logical structure without a single h1, cannot occur.
\<close>

theorem logical_structure_needs_single_h1:
  "h1Count (hf_analysis (extractHeadings doc)) = length (select doc ''h1'') \<and>
   hasProperH1 (hf_analysis (extractHeadings doc)) =
     (h1Count (hf_analysis (extractHeadings doc)) = 1) \<and>
   (hasLogicalStructure (hf_analysis (extractHeadings doc)) \<longrightarrow>
      h1Count (hf_analysis (extractHeadings doc)) = 1 \<and>
      hasProperH1 (hf_analysis (extractHeadings doc))) \<and>
   (ha_status (hf_analysis (extractHeadings doc)) = needs_improvement \<longleftrightarrow>
      h1Count (hf_analysis (extractHeadings doc)) = 1 \<and>
      \<not> hasLogicalStructure (hf_analysis (extractHeadings doc)))"
  by (simp add: extractHeadings_def Let_def checkLogicalHeadingStructure_def
      calculateHeadingStatus_def headingsOf_def)

theorem logical_structure_needs_single_h1_witness:
  "hasLogicalStructure (hf_analysis (extractHeadings page_proper)) \<and>
   h1Count (hf_analysis (extractHeadings page_proper)) = 1 \<and>
   hasProperH1 (hf_analysis (extractHeadings page_proper)) \<and>
   ha_status (hf_analysis (extractHeadings page_sample)) = needs_improvement \<and>
   h1Count (hf_analysis (extractHeadings page_sample)) = 1 \<and>
   \<not> hasLogicalStructure (hf_analysis (extractHeadings page_sample))"
proof -
  have a: "hasLogicalStructure (hf_analysis (extractHeadings page_proper))"
    by code_simp
  have b: "ha_status (hf_analysis (extractHeadings page_sample)) = needs_improvement"
    by code_simp
  from a b logical_structure_needs_single_h1 [of page_proper]
    logical_structure_needs_single_h1 [of page_sample]
  show ?thesis by blast
qed



text \<open>
  Claim C2. In every report the meta tags score, the headings proxy, the alt text
  percentage, the links proxy, the performance, mobile and content scores, the
  readability score and the overall score lie between 0 and 100.
\<close>

theorem scores_in_range:
  assumes "analyzeSEO lib doc url = Inr r"
  shows "percent (r_metaTagsScore r) \<and>
         percent (if hasProperH1 (hf_analysis (r_headings r)) then 100 else 50) \<and>
         percent (altTextPercentage (if_analysis (r_images r))) \<and>
         percent (r_linksScore r) \<and>
         percent (r_performanceScore r) \<and>
         percent (r_mobileScore r) \<and>
         percent (r_contentScore r) \<and>
         percent (readabilityScore (cf_metrics (r_contentAnalysis r))) \<and>
         percent (r_seoScore r)"
proof -
  from analyzeSEO_Inr [OF assms] obtain images :: image_facts and links :: link_facts where
    im: "extractImages lib doc url = Inr images" and
    f: "r_images r = images"
      "r_contentAnalysis r = analyzeContent doc"
      "r_metaTagsScore r = mt_score (extractMetaTags doc url)"
      "r_contentScore r = cf_score (analyzeContent doc)"
      "r_linksScore r = linksProxy (la_status (lf_analysis links))"
      "r_performanceScore r = pf_score (estimatePerformance doc)"
      "r_mobileScore r = mf_score (checkMobileFriendliness doc)" and
    s: "r_seoScore r =
          calculateOverallScore (mt_score (extractMetaTags doc url))
            (if hasProperH1 (hf_analysis (extractHeadings doc)) then 100 else 50)
            (altTextPercentage (if_analysis images))
            (linksProxy (la_status (lf_analysis links)))
            (pf_score (estimatePerformance doc))
            (mf_score (checkMobileFriendliness doc))
            (cf_score (analyzeContent doc))"
    by blast
  have p1: "percent (mt_score (extractMetaTags doc url))"
    using mt_score_extractMetaTags by blast
  have p2: "percent (if b then 100 else 50)" for b
    by (simp add: percent_def)
  have p3: "percent (altTextPercentage (if_analysis images))"
    using altTextPercentage_extractImages [OF im] by blast
  have p4: "percent (linksProxy (la_status (lf_analysis links)))"
    using linksProxy_range by (simp add: percent_def)
  have p5: "percent (pf_score (estimatePerformance doc))"
    using pf_score_estimatePerformance by blast
  have p6: "percent (mf_score (checkMobileFriendliness doc))"
    using mf_score_checkMobileFriendliness by blast
  have p7: "percent (cf_score (analyzeContent doc))"
    by (rule cf_score_analyzeContent)
  have p8: "percent (readabilityScore (cf_metrics (analyzeContent doc)))"
    by (rule readabilityScore_analyzeContent)
  have p9: "percent (r_seoScore r)"
    unfolding s percent_def
    by (rule calculateOverallScore_range)
       (use p1 p2 p3 p4 p5 p6 p7 in \<open>simp_all only: percent_def\<close>)
  from p1 p2 p3 p4 p5 p6 p7 p8 p9 show ?thesis
    by (simp only: f simp_thms)
qed

theorem scores_in_range_witness:
  "\<exists>r. analyzeSEO example_lib page_sample example_url = Inr r \<and>
       percent (r_metaTagsScore r) \<and>
       percent (if hasProperH1 (hf_analysis (r_headings r)) then 100 else 50) \<and>
       percent (altTextPercentage (if_analysis (r_images r))) \<and>
       percent (r_linksScore r) \<and>
       percent (r_performanceScore r) \<and>
       percent (r_mobileScore r) \<and>
       percent (r_contentScore r) \<and>
       percent (readabilityScore (cf_metrics (r_contentAnalysis r))) \<and>
       percent (r_seoScore r)"
proof -
  have "\<not> isl (analyzeSEO example_lib page_sample example_url)"
    by code_simp
  then obtain r where r: "analyzeSEO example_lib page_sample example_url = Inr r"
    using returns_Inr by blast
  from r scores_in_range [OF r] show ?thesis by blast
qed



text \<open>
  Claim C6 says that every numeric sub-score of the report, the readability score
  included, is an integer. For the page whose body reads \<^verbatim>\<open>a. b c\<close> (three words, two
  sentences, 1.5 words per sentence) the readability score is 59.5.
\<close>

theorem readability_not_rounded:
  "\<not> isl (analyzeSEO example_lib page_text example_url) \<and>
   readabilityScore (cf_metrics (r_contentAnalysis
     (projr (analyzeSEO example_lib page_text example_url)))) \<notin> \<int>"
proof -
  have a: "\<not> isl (analyzeSEO example_lib page_text example_url)"
    by code_simp
  have "readabilityScore (cf_metrics (r_contentAnalysis
          (projr (analyzeSEO example_lib page_text example_url)))) = 119 / 2"
    by code_simp
  with a show ?thesis by (simp only: half_not_int not_False_eq_True simp_thms)
qed

text \<open>
  Claim C6, amended. The overall score, the meta tags score, the alt text percentage,
  the links score, the performance score and the mobile score of a report are integers;
  the readability score is kept as computed, a number between 0 and 100.
\<close>

theorem rounded_scores_are_integers:
  assumes "analyzeSEO lib doc url = Inr r"
  shows "r_seoScore r \<in> \<int> \<and>
         r_metaTagsScore r \<in> \<int> \<and>
         altTextPercentage (if_analysis (r_images r)) \<in> \<int> \<and>
         r_linksScore r \<in> \<int> \<and>
         r_performanceScore r \<in> \<int> \<and>
         r_mobileScore r \<in> \<int> \<and>
         percent (readabilityScore (cf_metrics (r_contentAnalysis r)))"
proof -
  from analyzeSEO_Inr [OF assms] obtain images :: image_facts and links :: link_facts where
    im: "extractImages lib doc url = Inr images" and
    f: "r_images r = images"
      "r_contentAnalysis r = analyzeContent doc"
      "r_metaTagsScore r = mt_score (extractMetaTags doc url)"
      "r_linksScore r = linksProxy (la_status (lf_analysis links))"
      "r_performanceScore r = pf_score (estimatePerformance doc)"
      "r_mobileScore r = mf_score (checkMobileFriendliness doc)" and
    s: "r_seoScore r =
          calculateOverallScore (mt_score (extractMetaTags doc url))
            (if hasProperH1 (hf_analysis (extractHeadings doc)) then 100 else 50)
            (altTextPercentage (if_analysis images))
            (linksProxy (la_status (lf_analysis links)))
            (pf_score (estimatePerformance doc))
            (mf_score (checkMobileFriendliness doc))
            (cf_score (analyzeContent doc))"
    by blast
  have "r_seoScore r \<in> \<int>"
    by (simp add: s calculateOverallScore_def Let_def Math_round_Ints)
  moreover have "altTextPercentage (if_analysis images) \<in> \<int>"
    using altTextPercentage_extractImages [OF im] by blast
  ultimately show ?thesis
    using mt_score_extractMetaTags [of doc url] pf_score_estimatePerformance [of doc]
      mf_score_checkMobileFriendliness [of doc] readabilityScore_analyzeContent [of doc]
    by (simp add: f linksProxy_Ints)
qed

theorem rounded_scores_are_integers_witness:
  "\<exists>r. analyzeSEO example_lib page_text example_url = Inr r \<and>
       r_seoScore r \<in> \<int> \<and>
       r_metaTagsScore r \<in> \<int> \<and>
       altTextPercentage (if_analysis (r_images r)) \<in> \<int> \<and>
       r_linksScore r \<in> \<int> \<and>
       r_performanceScore r \<in> \<int> \<and>
       r_mobileScore r \<in> \<int> \<and>
       percent (readabilityScore (cf_metrics (r_contentAnalysis r)))"
proof -
  have "\<not> isl (analyzeSEO example_lib page_text example_url)"
    by code_simp
  then obtain r where r: "analyzeSEO example_lib page_text example_url = Inr r"
    using returns_Inr by blast
  from r rounded_scores_are_integers [OF r] show ?thesis by blast
qed


section \<open>The image loop\<close>

lemma eachImage_Inl:
  assumes "el \<in> set els" and "resolveUrl lib url (orEmpty (attr el ''src'')) = None"
  shows "eachImage lib url els acc = Inl TypeError_Invalid_URL"
  using assms
proof (induction els arbitrary: acc)
  case Nil
  then show ?case by simp
next
  case (Cons e es)
  show ?case
  proof (cases "resolveUrl lib url (orEmpty (attr e ''src''))")
    case None
    then show ?thesis by (simp add: resolveUrl_def Let_def)
  next
    case (Some u)
    with Cons.prems have "el \<in> set es" by auto
    with Cons.IH Cons.prems(2) Some show ?thesis
      by (simp add: resolveUrl_def Let_def)
  qed
qed

lemma eachImage_Inr:
  assumes "\<forall>el \<in> set els. resolveUrl lib url (orEmpty (attr el ''src'')) \<noteq> None"
  shows "\<exists>images. eachImage lib url els acc = Inr images"
  using assms
proof (induction els arbitrary: acc)
  case Nil
  then show ?case by simp
next
  case (Cons e es)
  then obtain u where "resolveUrl lib url (orEmpty (attr e ''src'')) = Some u"
    by auto
  with Cons show ?case
    by (simp add: resolveUrl_def Let_def)
qed




lemma extractImages_throws:
  assumes "el \<in> set (select doc ''img'')"
    and "resolveUrl lib url (orEmpty (attr el ''src'')) = None"
  shows "extractImages lib doc url = Inl TypeError_Invalid_URL"
  by (simp add: extractImages_def eachImage_Inl [OF assms])

lemma extractImages_returns:
  assumes "\<forall>el \<in> set (select doc ''img''). resolveUrl lib url (orEmpty (attr el ''src'')) \<noteq> None"
  shows "\<exists>f. extractImages lib doc url = Inr f"
proof -
  from eachImage_Inr [OF assms] obtain images where
    "eachImage lib url (select doc ''img'') [] = Inr images" by blast
  then show ?thesis by (simp add: extractImages_def Let_def)
qed



text \<open>
  Claim C3 says that no extractor throws. The image extractor does: when some img has a
  src that does not start with \<^verbatim>\<open>http\<close> and that the URL constructor rejects, the
  exception leaves \<^verbatim>\<open>extractImages\<close> and \<^verbatim>\<open>analyzeSEO\<close>. The link extractor
  catches the same exception (\<open>eachAnchor\<close>), and the other five extractors call
  nothing that throws.
\<close>

theorem unresolvable_image_src_throws:
  assumes "el \<in> set (select doc ''img'')"
    and "resolveUrl lib url (orEmpty (attr el ''src'')) = None"
  shows "extractImages lib doc url = Inl TypeError_Invalid_URL \<and>
         analyzeSEO lib doc url = Inl TypeError_Invalid_URL"
  by (simp add: analyzeSEO_def Let_def extractImages_throws [OF assms])

theorem unresolvable_image_src_throws_witness:
  "extractImages example_lib page_broken_image example_url = Inl TypeError_Invalid_URL \<and>
   analyzeSEO example_lib page_broken_image example_url = Inl TypeError_Invalid_URL"
proof -
  have a: "Element ''img'' [(''src'', ''//'')] [] \<in> set (select page_broken_image ''img'')"
    by code_simp
  have b: "resolveUrl example_lib example_url
             (orEmpty (attr (Element ''img'' [(''src'', ''//'')] []) ''src'')) = None"
    by code_simp
  from unresolvable_image_src_throws [OF a b] show ?thesis .
qed


section \<open>The anchor loop\<close>







lemma extractLinks_Inr:
  assumes "URL_origin lib url = Some base"
  shows "\<exists>f. extractLinks lib doc url = Inr f \<and>
             lf_links f = eachAnchor lib url base (select doc ''a'') \<lparr>internal = [], external = []\<rparr> \<and>
             totalLinks (lf_analysis f) =
               length (internal (lf_links f)) + length (external (lf_links f))"
  using assms by (simp add: extractLinks_def Let_def)

lemma analyzeSEO_returns:
  assumes "URL_origin lib url = Some base"
    and "\<forall>el \<in> set (select doc ''img''). resolveUrl lib url (orEmpty (attr el ''src'')) \<noteq> None"
  shows "\<exists>r. analyzeSEO lib doc url = Inr r"
proof -
  from extractImages_returns [OF assms(2)] obtain images where
    "extractImages lib doc url = Inr images" by blast
  moreover from extractLinks_Inr [OF assms(1), of doc] obtain links where
    "extractLinks lib doc url = Inr links" by blast
  ultimately show ?thesis by (simp add: analyzeSEO_def Let_def)
qed



section \<open>Counting words\<close>

lemma tokens_dropWhile: "tokens C (dropWhile C s) = tokens C s"
  by (induction s) simp_all

lemma tokens_all: "\<forall>c \<in> set s. C c \<Longrightarrow> tokens C s = []"
  by (induction s) simp_all

lemma tokens_Nil_iff: "tokens C s = [] \<longleftrightarrow> (\<forall>c \<in> set s. C c)"
  by (induction s) auto

lemma takeWhile_append_sep:
  assumes "ys = [] \<or> C (hd ys)"
  shows "takeWhile (\<lambda>x. \<not> C x) (xs @ ys) = takeWhile (\<lambda>x. \<not> C x) xs"
proof -
  have "takeWhile (\<lambda>x. \<not> C x) ys = []"
    using assms by (cases ys) auto
  then show ?thesis by (induction xs) simp_all
qed

lemma rev_strip: "rev (dropWhile C (rev x)) @ rev (takeWhile C (rev x)) = x"
proof -
  have "rev (dropWhile C (rev x)) @ rev (takeWhile C (rev x)) =
        rev (takeWhile C (rev x) @ dropWhile C (rev x))"
    by (simp only: rev_append)
  also have "\<dots> = x" by simp
  finally show ?thesis .
qed

lemma tokens_append_seps:
  assumes "\<forall>c \<in> set ys. C c"
  shows "tokens C (s @ ys) = tokens C s"
proof (induction s rule: length_induct)
  case (1 s)
  show ?case
  proof (cases s)
    case Nil
    with assms show ?thesis by (simp add: tokens_all)
  next
    case (Cons c cs)
    show ?thesis
    proof (cases "C c")
      case True
      have "length cs < length s" by (simp add: Cons)
      with 1 have "tokens C (cs @ ys) = tokens C cs" by blast
      with True Cons show ?thesis by simp
    next
      case False
      have y: "ys = [] \<or> C (hd ys)" using assms by (cases ys) simp_all
      have t: "takeWhile (\<lambda>x. \<not> C x) (cs @ ys) = takeWhile (\<lambda>x. \<not> C x) cs"
        using y by (rule takeWhile_append_sep [of ys C cs])
      have d: "tokens C (dropWhile (\<lambda>x. \<not> C x) (cs @ ys)) =
               tokens C (dropWhile (\<lambda>x. \<not> C x) cs)"
      proof (cases "\<forall>x \<in> set cs. \<not> C x")
        case True
        then have "dropWhile (\<lambda>x. \<not> C x) (cs @ ys) = dropWhile (\<lambda>x. \<not> C x) ys"
          by (simp add: dropWhile_append2)
        also have "\<dots> = ys" using y by (cases ys) simp_all
        finally have a: "tokens C (dropWhile (\<lambda>x. \<not> C x) (cs @ ys)) = []"
          using assms by (simp add: tokens_all)
        from True have b: "dropWhile (\<lambda>x. \<not> C x) cs = []" by simp
        show ?thesis by (simp only: a b tokens.simps)
      next
        case False
        then have "dropWhile (\<lambda>x. \<not> C x) (cs @ ys) = dropWhile (\<lambda>x. \<not> C x) cs @ ys"
          by (auto simp: dropWhile_append1)
        moreover have "length (dropWhile (\<lambda>x. \<not> C x) cs) < length s"
          by (simp add: Cons length_dropWhile_le less_Suc_eq_le)
        ultimately show ?thesis using 1 by simp
      qed
      from False Cons t d show ?thesis by simp
    qed
  qed
qed

lemma tokens_trimmed: "tokens C (rev (dropWhile C (rev (dropWhile C s)))) = tokens C s"
proof -
  define x where "x = dropWhile C s"
  have a: "\<forall>c \<in> set (rev (takeWhile C (rev x))). C c"
    by (auto dest: set_takeWhileD)
  have "tokens C (rev (dropWhile C (rev x)) @ rev (takeWhile C (rev x))) =
        tokens C (rev (dropWhile C (rev x)))"
    using a by (rule tokens_append_seps)
  then have "tokens C (rev (dropWhile C (rev x))) = tokens C x"
    by (simp only: rev_strip)
  then show ?thesis by (simp add: x_def tokens_dropWhile)
qed

lemma replaceRuns_split:
  "replaceRuns C r s =
     takeWhile (\<lambda>x. \<not> C x) s @ replaceRuns C r (dropWhile (\<lambda>x. \<not> C x) s)"
  by (induction s) simp_all

lemma tokens_replaceRuns:
  assumes "C sp"
  shows "tokens C (replaceRuns C [sp] s) = tokens C s"
proof (induction s rule: length_induct)
  case (1 s)
  show ?case
  proof (cases s)
    case Nil
    then show ?thesis by simp
  next
    case (Cons c cs)
    show ?thesis
    proof (cases "C c")
      case True
      have "length (dropWhile C cs) < length s"
        by (simp add: Cons length_dropWhile_le less_Suc_eq_le)
      with 1 have "tokens C (replaceRuns C [sp] (dropWhile C cs)) = tokens C (dropWhile C cs)"
        by blast
      with True Cons assms show ?thesis by (simp add: tokens_dropWhile)
    next
      case False
      define rest where "rest = dropWhile (\<lambda>x. \<not> C x) cs"
      have r: "replaceRuns C [sp] cs = takeWhile (\<lambda>x. \<not> C x) cs @ replaceRuns C [sp] rest"
        unfolding rest_def by (rule replaceRuns_split)
      have h: "replaceRuns C [sp] rest = [] \<or> C (hd (replaceRuns C [sp] rest))"
      proof (cases rest)
        case Nil
        then show ?thesis by simp
      next
        case (Cons y ys)
        then have "C y" using hd_dropWhile [of "\<lambda>x. \<not> C x" cs] by (simp add: rest_def)
        with Cons assms show ?thesis by simp
      qed
      have t: "takeWhile (\<lambda>x. \<not> C x) (replaceRuns C [sp] cs) = takeWhile (\<lambda>x. \<not> C x) cs"
        unfolding r
        using h takeWhile_append_sep [of "replaceRuns C [sp] rest" C "takeWhile (\<lambda>x. \<not> C x) cs"]
        by simp
      have d: "dropWhile (\<lambda>x. \<not> C x) (replaceRuns C [sp] cs) = replaceRuns C [sp] rest"
      proof -
        have "dropWhile (\<lambda>x. \<not> C x) (takeWhile (\<lambda>x. \<not> C x) cs @ replaceRuns C [sp] rest) =
              dropWhile (\<lambda>x. \<not> C x) (replaceRuns C [sp] rest)"
          by (rule dropWhile_append2) (auto dest: set_takeWhileD)
        also have "\<dots> = replaceRuns C [sp] rest"
          using h by (cases "replaceRuns C [sp] rest") simp_all
        finally show ?thesis by (simp only: r)
      qed
      have "length rest < length s"
        by (simp add: rest_def Cons length_dropWhile_le less_Suc_eq_le)
      with 1 have "tokens C (replaceRuns C [sp] rest) = tokens C rest" by blast
      with False Cons t d show ?thesis by (simp add: rest_def)
    qed
  qed
qed

lemma splitRuns_piece:
  "splitRuns C cur s =
     (cur @ takeWhile (\<lambda>x. \<not> C x) s) #
     (case dropWhile (\<lambda>x. \<not> C x) s of
        [] \<Rightarrow> []
      | x # xs \<Rightarrow> splitRuns C [] (dropWhile C xs))"
  by (induction s arbitrary: cur) simp_all

lemma splitRuns_tokens:
  assumes "t \<noteq> []" and "\<not> C (hd t)" and "\<not> C (last t)"
  shows "splitRuns C [] t = tokens C t"
  using assms
proof (induction t rule: length_induct)
  case (1 t)
  from "1.prems" obtain c cs where t: "t = c # cs" and c: "\<not> C c"
    by (cases t) simp_all
  define rest where "rest = dropWhile (\<lambda>x. \<not> C x) cs"
  have s: "splitRuns C [] t =
             (c # takeWhile (\<lambda>x. \<not> C x) cs) #
             (case rest of [] \<Rightarrow> [] | x # xs \<Rightarrow> splitRuns C [] (dropWhile C xs))"
    using c splitRuns_piece [of C "[]" "c # cs"]
    by (simp add: t rest_def del: splitRuns.simps)
  have k: "tokens C t = (c # takeWhile (\<lambda>x. \<not> C x) cs) # tokens C rest"
    using c by (simp add: t rest_def)
  show ?case
  proof (cases rest)
    case Nil
    with s k show ?thesis by simp
  next
    case (Cons x xs)
    then have x: "C x" using hd_dropWhile [of "\<lambda>x. \<not> C x" cs] by (simp add: rest_def)
    define u where "u = dropWhile C xs"
    have "takeWhile (\<lambda>x. \<not> C x) cs @ rest = cs"
      unfolding rest_def by (rule takeWhile_dropWhile_id)
    then have cs: "cs = takeWhile (\<lambda>x. \<not> C x) cs @ x # xs"
      by (simp only: Cons)
    have xs: "xs = takeWhile C xs @ u" by (simp add: u_def)
    have "last t = last (x # xs)"
      using cs by (metis t last_ConsR last_appendR list.distinct(1) append_is_Nil_conv)
    with "1.prems"(3) have lx: "\<not> C (last (x # xs))" by simp
    have un: "u \<noteq> []"
    proof
      assume "u = []"
      then have "\<forall>y \<in> set xs. C y" by (simp add: u_def)
      with x have "C (last (x # xs))" by (metis last_in_set list.distinct(1) set_ConsD)
      with lx show False by simp
    qed
    then have hu: "\<not> C (hd u)" using hd_dropWhile [of C xs] by (simp add: u_def)
    have "last (x # xs) = last u"
      using xs un by (metis last_ConsR last_appendR append_is_Nil_conv)
    with lx have lu: "\<not> C (last u)" by simp
    have "length u < length t"
      using length_dropWhile_le [of C xs] length_dropWhile_le [of "\<lambda>x. \<not> C x" cs]
      by (simp add: u_def t Cons [unfolded rest_def])
    with 1 un hu lu have "splitRuns C [] u = tokens C u" by blast
    moreover have "tokens C rest = tokens C u"
      using x by (simp add: Cons u_def tokens_dropWhile)
    ultimately show ?thesis using s k Cons by (simp add: u_def)
  qed
qed

lemma trimmed_ends:
  assumes "rev (dropWhile C (rev (dropWhile C s))) \<noteq> []"
  shows "\<not> C (hd (rev (dropWhile C (rev (dropWhile C s))))) \<and> \<not> C (last (rev (dropWhile C (rev (dropWhile C s)))))"
proof -
  define x where "x = dropWhile C s"
  define y where "y = dropWhile C (rev x)"
  have t: "rev (dropWhile C (rev (dropWhile C s))) = rev y" by (simp add: x_def y_def)
  with assms have y: "y \<noteq> []" by simp
  then have "\<not> C (hd y)" using hd_dropWhile [of C "rev x"] by (simp add: y_def)
  then have l: "\<not> C (last (rev y))" using y by (simp add: last_rev)
  have xe: "x = rev y @ rev (takeWhile C (rev x))"
    unfolding y_def by (simp only: rev_strip)
  with y have "x \<noteq> []" by auto
  then have "\<not> C (hd x)" using hd_dropWhile [of C s] by (simp add: x_def)
  moreover have "hd x = hd (rev y)" using xe y by (metis hd_append2 rev_is_Nil_conv)
  ultimately show ?thesis using l t by simp
qed

lemma split_clean_text:
  assumes "C sp"
  shows "str_split C (rev (dropWhile C (rev (dropWhile C (replaceRuns C [sp] s))))) =
           (if tokens C s = [] then [''''] else tokens C s)"
proof -
  define t where "t = rev (dropWhile C (rev (dropWhile C (replaceRuns C [sp] s))))"
  have k: "tokens C t = tokens C s"
    using assms tokens_replaceRuns [of C sp s] by (simp add: t_def tokens_trimmed)
  show ?thesis
  proof (cases "t = []")
    case True
    with k show ?thesis by (simp add: str_split_def t_def [symmetric])
  next
    case False
    with trimmed_ends [of C "replaceRuns C [sp] s"]
    have "\<not> C (hd t) \<and> \<not> C (last t)" by (simp add: t_def)
    with False have "splitRuns C [] t = tokens C t" by (simp add: splitRuns_tokens)
    moreover from False \<open>\<not> C (hd t) \<and> \<not> C (last t)\<close> have "tokens C t \<noteq> []"
      by (cases t) auto
    ultimately show ?thesis using k by (simp add: str_split_def t_def [symmetric])
  qed
qed

text \<open>
  Claim C5 says that the word count is the number of white-space-separated tokens of
  the collapsed body text, and 0 for a body without text. The code counts the pieces of
  \<^verbatim>\<open>cleanText.split(/\s+/)\<close>. With at least one token the pieces are the tokens; without
  any, the clean text is empty, splitting it gives one (empty) piece, and the word count
  is 1.
\<close>

theorem word_count_tokens_or_one:
  "wordCount (cf_metrics (analyzeContent doc)) =
     (if tokens isWhiteSpace (cleanBodyText doc) = [] then 1
      else length (tokens isWhiteSpace (cleanBodyText doc))) \<and>
   tokens isWhiteSpace (cleanBodyText doc) = tokens isWhiteSpace (texts (select doc ''body''))"
proof -
  have s: "isWhiteSpace CHR '' ''" by (simp add: isWhiteSpace_def)
  have c: "cleanBodyText doc =
             rev (dropWhile isWhiteSpace (rev (dropWhile isWhiteSpace
               (replaceRuns isWhiteSpace '' '' (texts (select doc ''body''))))))"
    by (simp add: cleanBodyText_def trim_def)
  have k: "tokens isWhiteSpace (cleanBodyText doc) =
           tokens isWhiteSpace (texts (select doc ''body''))"
    using s tokens_replaceRuns [of isWhiteSpace "CHR '' ''" "texts (select doc ''body'')"]
    by (simp only: c tokens_trimmed)
  have "str_split isWhiteSpace (cleanBodyText doc) =
          (if tokens isWhiteSpace (texts (select doc ''body'')) = [] then ['''']
           else tokens isWhiteSpace (texts (select doc ''body'')))"
    using s split_clean_text [of isWhiteSpace "CHR '' ''" "texts (select doc ''body'')"]
    by (simp only: c)
  then have "wordCount (cf_metrics (analyzeContent doc)) =
     (if tokens isWhiteSpace (texts (select doc ''body'')) = [] then 1
      else length (tokens isWhiteSpace (texts (select doc ''body''))))"
    by (simp add: analyzeContent_def Let_def)
  with k show ?thesis by simp
qed

theorem word_count_tokens_or_one_witness:
  "tokens isWhiteSpace (cleanBodyText page_blank) = [] \<and>
   wordCount (cf_metrics (analyzeContent page_blank)) = 1 \<and>
   tokens isWhiteSpace (cleanBodyText page_text) = [''a.'', ''b'', ''c''] \<and>
   wordCount (cf_metrics (analyzeContent page_text)) = 3"
proof -
  have b: "tokens isWhiteSpace (cleanBodyText page_blank) = []" by code_simp
  have t: "tokens isWhiteSpace (cleanBodyText page_text) = [''a.'', ''b'', ''c'']" by code_simp
  from b t word_count_tokens_or_one [of page_blank] word_count_tokens_or_one [of page_text]
  show ?thesis by simp
qed

end
